theory Spec2Isabelle
  imports Complex_Main "HOL-Library.Sublist"
begin

section \<open>The NBA live total calculator (nba\_total\_calc.py)\<close>

text \<open>
  A shallow embedding of the two engines of \<^verbatim>\<open>nba_total_calc.py\<close>:
  \<^verbatim>\<open>compute_projection\<close> and \<^verbatim>\<open>hedge_equalize\<close>, with the helpers they call.

  Conventions of the model:
  \<^item> a Python \<^verbatim>\<open>float\<close> is a \<^typ>\<open>real\<close>: arithmetic is exact, there is no rounding,
    no infinity and no NaN;
  \<^item> a Python \<^verbatim>\<open>int\<close> is an \<^typ>\<open>int\<close>;
  \<^item> a Python \<^verbatim>\<open>str\<close> is a \<^typ>\<open>string\<close> of ASCII characters;
  \<^item> an exception is a value \<open>Inl e\<close> of the result type \<open>py_error + 'a\<close>;
  \<^item> the wall-clock reading \<^verbatim>\<open>datetime.now()\<close> is an argument of the model.
\<close>

subsection \<open>Exceptions\<close>

datatype py_error = ValueError string | ZeroDivisionError

subsection \<open>The string builtins the source calls\<close>

text \<open>\<^verbatim>\<open>str.isspace\<close> on one ASCII character: TAB..CR, FS..US and the blank.\<close>

definition is_space :: "char \<Rightarrow> bool" where
  "is_space c =
     (let n = (of_char c :: nat) in (9 \<le> n \<and> n \<le> 13) \<or> (28 \<le> n \<and> n \<le> 32))"

text \<open>\<^verbatim>\<open>s.strip()\<close>: the whitespace at both ends is removed.\<close>

definition strip :: "string \<Rightarrow> string" where
  "strip s = rev (dropWhile is_space (rev (dropWhile is_space s)))"

text \<open>\<^verbatim>\<open>s.upper()\<close>: the letters a..z are moved to A..Z.\<close>

definition upper_char :: "char \<Rightarrow> char" where
  "upper_char c =
     (let n = (of_char c :: nat) in if 97 \<le> n \<and> n \<le> 122 then char_of (n - 32) else c)"

definition upper :: "string \<Rightarrow> string" where
  "upper s = map upper_char s"

text \<open>\<^verbatim>\<open>s.split(sep)\<close> for a separator of one character: never an empty list.\<close>

fun split_on :: "char \<Rightarrow> string \<Rightarrow> string list" where
  "split_on sep [] = [[]]"
| "split_on sep (c # cs) =
     (if c = sep then [] # split_on sep cs
      else (case split_on sep cs of
              [] \<Rightarrow> [[c]]
            | p # ps \<Rightarrow> (c # p) # ps))"

text \<open>\<^verbatim>\<open>sep.join(parts)\<close>.\<close>

fun join :: "string \<Rightarrow> string list \<Rightarrow> string" where
  "join sep [] = []"
| "join sep [p] = p"
| "join sep (p # q # ps) = p @ sep @ join sep (q # ps)"

text \<open>\<^verbatim>\<open>p in f\<close> on strings: \<open>p\<close> occurs in \<open>f\<close> as a contiguous block.\<close>

fun str_contains :: "string \<Rightarrow> string \<Rightarrow> bool" where
  "str_contains [] p = (p = [])"
| "str_contains (c # cs) p = (prefix p (c # cs) \<or> str_contains cs p)"

subsection \<open>\<^verbatim>\<open>int(s)\<close> on a string\<close>

definition is_digit :: "char \<Rightarrow> bool" where
  "is_digit c = (let n = (of_char c :: nat) in 48 \<le> n \<and> n \<le> 57)"

definition digit_val :: "char \<Rightarrow> nat" where
  "digit_val c = of_char c - 48"

text \<open>
  The digits after the first one: a single underscore may stand between two digits.
  The accumulator is the value read so far.
\<close>

fun parse_digits :: "nat \<Rightarrow> string \<Rightarrow> nat option" where
  "parse_digits acc [] = Some acc"
| "parse_digits acc [c] =
     (if is_digit c then Some (acc * 10 + digit_val c) else None)"
| "parse_digits acc (c # d # ds) =
     (if is_digit c then parse_digits (acc * 10 + digit_val c) (d # ds)
      else if c = CHR ''_'' \<and> is_digit d then parse_digits (acc * 10 + digit_val d) ds
      else None)"

definition parse_nat :: "string \<Rightarrow> nat option" where
  "parse_nat s =
     (case s of
        [] \<Rightarrow> None
      | c # cs \<Rightarrow> if is_digit c then parse_digits (digit_val c) cs else None)"

text \<open>
  \<^verbatim>\<open>int(s)\<close> in base ten: whitespace around the literal is skipped, one sign is
  accepted, and anything else raises \<^verbatim>\<open>ValueError\<close>. The message's \<^verbatim>\<open>repr\<close> of the
  argument is written with plain quotes.
\<close>

definition py_int :: "string \<Rightarrow> py_error + int" where
  "py_int s =
     (let t = strip s;
          r = (case t of
                 [] \<Rightarrow> None
               | c # cs \<Rightarrow>
                   if c = CHR ''-'' then map_option (\<lambda>n. - int n) (parse_nat cs)
                   else if c = CHR ''+'' then map_option int (parse_nat cs)
                   else map_option int (parse_nat t))
      in case r of
           None \<Rightarrow> Inl (ValueError (''invalid literal for int() with base 10: '' @
                                    [CHR 0x27] @ s @ [CHR 0x27]))
         | Some i \<Rightarrow> Inr i)"

subsection \<open>Fixed-point formatting: \<^verbatim>\<open>f"{x:.df}"\<close>\<close>

definition digit_char :: "nat \<Rightarrow> char" where
  "digit_char n = char_of (48 + n)"

function str_nat :: "nat \<Rightarrow> string" where
  "str_nat n = (if n < 10 then [digit_char n] else str_nat (n div 10) @ [digit_char (n mod 10)])"
  by pat_completeness auto
termination
  by (relation "measure (\<lambda>n. n)") auto

text \<open>The last \<open>d\<close> decimal digits of \<open>n\<close>, with leading zeros.\<close>

fun frac_digits :: "nat \<Rightarrow> nat \<Rightarrow> string" where
  "frac_digits 0 n = []"
| "frac_digits (Suc d) n = frac_digits d (n div 10) @ [digit_char (n mod 10)]"

text \<open>Rounding to the nearest integer, a tie going to the even neighbour.\<close>

definition round_half_even :: "real \<Rightarrow> int" where
  "round_half_even x =
     (let f = \<lfloor>x\<rfloor>; r = x - of_int f
      in if r < 1 / 2 then f
         else if 1 / 2 < r then f + 1
         else if even f then f else f + 1)"

text \<open>
  \<^verbatim>\<open>f"{x:.df}"\<close>: the sign of a negative number, the integer part, and for
  \<open>d > 0\<close> a point and \<open>d\<close> decimals of the correctly rounded magnitude.
\<close>

definition fmt_fixed :: "nat \<Rightarrow> real \<Rightarrow> string" where
  "fmt_fixed d x =
     (let n = nat (round_half_even (\<bar>x\<bar> * 10 ^ d))
      in (if x < 0 then ''-'' else []) @ str_nat (n div 10 ^ d) @
         (if d = 0 then [] else ''.'' @ frac_digits d n))"

subsection \<open>Helpers\<close>

text \<open>\<^verbatim>\<open>parse_mmss\<close>: minutes as a number from \<^verbatim>\<open>'mm:ss'\<close>.\<close>

definition parse_mmss :: "string \<Rightarrow> py_error + real" where
  "parse_mmss s =
     (let parts = split_on CHR '':'' (strip s)
      in if length parts \<noteq> 2 then Inl (ValueError ''Time must be mm:ss (e.g., 7:10).'')
         else case py_int (parts ! 0) of
                Inl e \<Rightarrow> Inl e
              | Inr mm \<Rightarrow>
                  (case py_int (parts ! 1) of
                     Inl e \<Rightarrow> Inl e
                   | Inr ss \<Rightarrow>
                       if mm < 0 \<or> ss < 0 \<or> ss \<ge> 60 then Inl (ValueError ''Invalid mm:ss.'')
                       else Inr (real_of_int mm + real_of_int ss / 60)))"

definition clamp :: "real \<Rightarrow> real \<Rightarrow> real \<Rightarrow> real" where
  "clamp x lo hi = max lo (min hi x)"

definition auto_alpha :: "real \<Rightarrow> real" where
  "auto_alpha elapsed_min = clamp (0.35 + 0.012 * elapsed_min) 0.35 0.90"

definition dec_from_american :: "real \<Rightarrow> py_error + real" where
  "dec_from_american a =
     (if a = 0 then Inl (ValueError ''American odds cannot be 0.'')
      else if a < 0 then Inr (1 + 100 / \<bar>a\<bar>)
      else Inr (1 + a / 100))"

text \<open>
  A division of two floats raises \<^verbatim>\<open>ZeroDivisionError\<close> when the divisor is zero.
\<close>

definition py_div :: "real \<Rightarrow> real \<Rightarrow> py_error + real" where
  "py_div x y = (if y = 0 then Inl ZeroDivisionError else Inr (x / y))"

subsection \<open>The projection\<close>

record CalcResult =
  timestamp :: string
  quarter :: int
  time_left :: string
  total_points :: real
  live_total :: real
  pregame_total :: real
  elapsed_min :: real
  alpha_used :: real
  pace_ppm :: real
  pace_proj :: real
  blended_proj :: real
  edge_vs_live :: real
  needed_ppm_for_live :: real
  lean :: string
  flags :: string

text \<open>
  The arguments of \<^verbatim>\<open>compute_projection\<close>, one field for each parameter
  (\<open>in_x\<close> for the parameter \<open>x\<close>); \<open>None\<close> is Python's \<^verbatim>\<open>None\<close>.
\<close>

record projection_args =
  in_quarter :: int
  in_time_left_mmss :: string
  in_total_points :: real
  in_live_total :: real
  in_pregame_total :: real
  in_alpha :: "real option"
  in_edge_threshold :: real
  in_bonus :: bool
  in_ft_parade :: bool
  in_bonus_boost_ppm :: real
  in_fta_total :: "real option"
  in_three_pt_pct :: "real option"
  in_ot_on :: bool
  in_ot_prob_pct :: real
  in_ot_expected_points :: real

text \<open>
  A call that passes the five positional parameters and leaves every keyword
  parameter at its default.
\<close>

definition default_args :: "int \<Rightarrow> string \<Rightarrow> real \<Rightarrow> real \<Rightarrow> real \<Rightarrow> projection_args" where
  "default_args q t pts live pregame =
     \<lparr>in_quarter = q, in_time_left_mmss = t, in_total_points = pts, in_live_total = live,
      in_pregame_total = pregame, in_alpha = None, in_edge_threshold = 4.0,
      in_bonus = False, in_ft_parade = False, in_bonus_boost_ppm = 0.25,
      in_fta_total = None, in_three_pt_pct = None, in_ot_on = False,
      in_ot_prob_pct = 6.0, in_ot_expected_points = 10.0\<rparr>"

text \<open>
  The head of \<^verbatim>\<open>compute_projection\<close>: the clock is parsed, the elapsed minutes
  are computed and checked. The result is the pair \<open>(tleft, elapsed)\<close>.
\<close>

definition clock_elapsed :: "int \<Rightarrow> string \<Rightarrow> py_error + (real \<times> real)" where
  "clock_elapsed q time_left_mmss =
     (case parse_mmss time_left_mmss of
        Inl e \<Rightarrow> Inl e
      | Inr tleft \<Rightarrow>
          (let elapsed = real_of_int (q - 1) * 12 + (12 - tleft)
           in if elapsed \<le> 0 \<or> elapsed > 48
              then Inl (ValueError ''Elapsed time out of bounds. Check quarter/time left.'')
              else Inr (tleft, elapsed)))"

text \<open>The flags, appended in the order of the source.\<close>

definition bonus_flags :: "bool \<Rightarrow> int \<Rightarrow> real \<Rightarrow> string list" where
  "bonus_flags bonus q tleft =
     (if bonus \<and> q \<le> 3 \<and> tleft > 6 then [''EARLY_BONUS_HIGH_RISK'']
      else if bonus then [''BONUS/WHISTLES_ON'']
      else [])"

definition ft_parade_flags :: "bool \<Rightarrow> string list" where
  "ft_parade_flags ft_parade = (if ft_parade then [''FT_PARADE''] else [])"

definition fta_flags :: "real option \<Rightarrow> real \<Rightarrow> py_error + string list" where
  "fta_flags fta_total elapsed =
     (case fta_total of
        None \<Rightarrow> Inr []
      | Some fta \<Rightarrow>
          (case py_div fta elapsed of
             Inl e \<Rightarrow> Inl e
           | Inr fta_per_min \<Rightarrow>
               if fta_per_min \<ge> 1.10
               then Inr [''HIGH_FT_RATE('' @ fmt_fixed 2 fta_per_min @ ''/min)'']
               else if fta_per_min \<ge> 0.85
               then Inr [''ELEVATED_FT_RATE('' @ fmt_fixed 2 fta_per_min @ ''/min)'']
               else Inr [''FT_RATE_OK('' @ fmt_fixed 2 fta_per_min @ ''/min)'']))"

definition three_pt_flags :: "real option \<Rightarrow> string list" where
  "three_pt_flags three_pt_pct =
     (case three_pt_pct of
        None \<Rightarrow> []
      | Some p \<Rightarrow>
          if p \<ge> 0.42 then [''3P_HOT('' @ fmt_fixed 1 (p * 100) @ ''%)'']
          else if p \<le> 0.31 then [''3P_COLD('' @ fmt_fixed 1 (p * 100) @ ''%)'']
          else [''3P_NORMAL('' @ fmt_fixed 1 (p * 100) @ ''%)''])"

definition ot_flags :: "bool \<Rightarrow> real \<Rightarrow> real \<Rightarrow> string list" where
  "ot_flags ot_on ot_prob_pct ot_expected_points =
     (if ot_on
      then [''OT_ON('' @ fmt_fixed 1 ot_prob_pct @ ''% -> +'' @
            fmt_fixed 1 ((ot_prob_pct / 100) * ot_expected_points) @ '' pts)'']
      else [])"

definition projection_flags :: "projection_args \<Rightarrow> real \<Rightarrow> real \<Rightarrow> py_error + string list" where
  "projection_flags a tleft elapsed =
     (case fta_flags (in_fta_total a) elapsed of
        Inl e \<Rightarrow> Inl e
      | Inr ft \<Rightarrow>
          Inr (bonus_flags (in_bonus a) (in_quarter a) tleft @
               ft_parade_flags (in_ft_parade a) @
               ft @
               three_pt_flags (in_three_pt_pct a) @
               ot_flags (in_ot_on a) (in_ot_prob_pct a) (in_ot_expected_points a)))"

definition boost_of :: "projection_args \<Rightarrow> real" where
  "boost_of a =
     (if in_bonus a then in_bonus_boost_ppm a else 0) + (if in_ft_parade a then 0.35 else 0)"

definition lean_of :: "real \<Rightarrow> real \<Rightarrow> string" where
  "lean_of edge edge_threshold =
     (if edge \<ge> edge_threshold then ''LEAN: OVER''
      else if edge \<le> - edge_threshold then ''LEAN: UNDER''
      else ''PASS / WAIT'')"

text \<open>
  \<^verbatim>\<open>compute_projection\<close>; \<open>ts\<close> is the formatted reading of the wall clock.
  The locals \<^verbatim>\<open>alpha_used\<close>, \<^verbatim>\<open>pace_ppm\<close> and \<^verbatim>\<open>blended_proj\<close> are written
  \<open>alpha\<close>, \<open>pace\<close> and \<open>blended\<close>: the result record has fields of these names.
\<close>

definition compute_projection :: "projection_args \<Rightarrow> string \<Rightarrow> py_error + CalcResult" where
  "compute_projection a ts =
     (case clock_elapsed (in_quarter a) (in_time_left_mmss a) of
        Inl e \<Rightarrow> Inl e
      | Inr (tleft, elapsed) \<Rightarrow>
     (let alpha = (case in_alpha a of
                     None \<Rightarrow> auto_alpha elapsed
                   | Some al \<Rightarrow> clamp al 0.05 0.95)
      in case py_div (in_total_points a) elapsed of
        Inl e \<Rightarrow> Inl e
      | Inr pace \<Rightarrow>
     (let baseline_rate = in_pregame_total a / 48;
          boost = boost_of a;
          blended_rate = alpha * (pace + boost) + (1 - alpha) * baseline_rate;
          blended0 = in_total_points a + blended_rate * (48 - elapsed);
          blended = (if in_ot_on a
                     then blended0 + (in_ot_prob_pct a / 100) * in_ot_expected_points a
                     else blended0)
      in case py_div (in_live_total a - in_total_points a) (48 - elapsed) of
        Inl e \<Rightarrow> Inl e
      | Inr needed_ppm \<Rightarrow>
     (let edge = blended - in_live_total a
      in case projection_flags a tleft elapsed of
        Inl e \<Rightarrow> Inl e
      | Inr fl \<Rightarrow>
          Inr \<lparr>timestamp = ts,
               quarter = in_quarter a,
               time_left = in_time_left_mmss a,
               total_points = in_total_points a,
               live_total = in_live_total a,
               pregame_total = in_pregame_total a,
               elapsed_min = elapsed,
               alpha_used = alpha,
               pace_ppm = pace,
               pace_proj = pace * 48,
               blended_proj = blended,
               edge_vs_live = edge,
               needed_ppm_for_live = needed_ppm,
               lean = lean_of edge (in_edge_threshold a),
               flags = (if fl = [] then ''NONE'' else join '';'' fl)\<rparr>))))"

subsection \<open>The hedge\<close>

record HedgeResult =
  suggestion :: string
  equalized_hedge_stake :: real
  middle_note :: string
  worst_case_profit :: real
  best_case_profit :: real

definition is_bad_flag :: "string \<Rightarrow> bool" where
  "is_bad_flag f =
     (str_contains f ''HIGH_RISK'' \<or> str_contains f ''FT_PARADE'' \<or>
      str_contains f ''HIGH_FT_RATE'')"

definition is_warn_flag :: "string \<Rightarrow> bool" where
  "is_warn_flag f =
     (str_contains f ''BONUS'' \<or> str_contains f ''ELEVATED_FT_RATE'' \<or>
      str_contains f ''3P_'' \<or> str_contains f ''OT_ON'')"

definition suggestion_of :: "real \<Rightarrow> nat \<Rightarrow> nat \<Rightarrow> string" where
  "suggestion_of clv bad warn =
     (if clv \<ge> 6 \<and> (bad \<ge> 1 \<or> warn \<ge> 2) then ''Consider SMALL hedge''
      else if clv \<ge> 6 then ''Hold (good CLV)''
      else if clv \<ge> 3 \<and> bad \<ge> 1 then ''Watch closely (whistle risk)''
      else ''No hedge signal'')"

definition middle_note_of :: "string \<Rightarrow> real \<Rightarrow> real \<Rightarrow> string" where
  "middle_note_of my_side my_line hedge_line =
     (if my_side = ''UNDER'' then
        (if hedge_line < my_line
         then ''Middle range (both win): '' @ fmt_fixed 1 hedge_line @ '' to '' @
              fmt_fixed 1 my_line @ '' (excluding pushes).''
         else ''No classic middle (hedge line not below your under line).'')
      else
        (if hedge_line > my_line
         then ''Middle range (both win): '' @ fmt_fixed 1 my_line @ '' to '' @
              fmt_fixed 1 hedge_line @ '' (excluding pushes).''
         else ''No classic middle (hedge line not above your over line).''))"

text \<open>
  \<^verbatim>\<open>hedge_equalize\<close>; the parameters \<^verbatim>\<open>live_total\<close> and \<^verbatim>\<open>flags\<close> are written
  \<open>live\<close> and \<open>fl\<close>, since the result record of the projection has fields of
  these names.
\<close>

definition hedge_equalize ::
  "string \<Rightarrow> real \<Rightarrow> real \<Rightarrow> real \<Rightarrow> real \<Rightarrow> real \<Rightarrow> real \<Rightarrow> string list
     \<Rightarrow> py_error + HedgeResult" where
  "hedge_equalize my_side0 my_line my_stake my_odds_american hedge_line hedge_odds_american
       live fl =
     (let my_side = strip (upper my_side0)
      in if my_side \<noteq> ''UNDER'' \<and> my_side \<noteq> ''OVER''
         then Inl (ValueError ''my_side must be UNDER or OVER.'')
         else case dec_from_american my_odds_american of
        Inl e \<Rightarrow> Inl e
      | Inr dec0 \<Rightarrow>
     (case dec_from_american hedge_odds_american of
        Inl e \<Rightarrow> Inl e
      | Inr dech \<Rightarrow>
     (case py_div (my_stake * dec0) dech of
        Inl e \<Rightarrow> Inl e
      | Inr hedge_stake \<Rightarrow>
     (let clv = (if my_side = ''UNDER'' then my_line - live else live - my_line);
          bad = length (filter is_bad_flag fl);
          warn = length (filter is_warn_flag fl);
          win0 = my_stake * (dec0 - 1);
          lose0 = - my_stake;
          winh = hedge_stake * (dech - 1);
          loseh = - hedge_stake
      in Inr \<lparr>suggestion = suggestion_of clv bad warn,
              equalized_hedge_stake = hedge_stake,
              middle_note = middle_note_of my_side my_line hedge_line,
              worst_case_profit = min (win0 + loseh) (lose0 + winh),
              best_case_profit = win0 + winh\<rparr>))))"

subsection \<open>The categories of the flags\<close>

text \<open>
  The place of a flag in the detection sequence, read off its tag: 1 for the bonus
  flags, 2 for the free-throw parade, 3 for the free-throw rate, 4 for the three-point
  flags, 5 for overtime, and 0 for any other string.
\<close>

definition flag_category :: "string \<Rightarrow> nat" where
  "flag_category f =
     (if f = ''EARLY_BONUS_HIGH_RISK'' \<or> f = ''BONUS/WHISTLES_ON'' then 1
      else if f = ''FT_PARADE'' then 2
      else if prefix ''HIGH_FT_RATE('' f \<or> prefix ''ELEVATED_FT_RATE('' f \<or>
              prefix ''FT_RATE_OK('' f then 3
      else if prefix ''3P_HOT('' f \<or> prefix ''3P_COLD('' f \<or> prefix ''3P_NORMAL('' f then 4
      else if prefix ''OT_ON('' f then 5
      else 0)"

section \<open>Properties of the projection\<close>

subsection \<open>What a call returns\<close>

lemma clock_elapsedD:
  "clock_elapsed q s = Inr (t, e) \<Longrightarrow>
     parse_mmss s = Inr t \<and> e = real_of_int (q - 1) * 12 + (12 - t) \<and> 0 < e \<and> e \<le> 48"
  by (auto simp: clock_elapsed_def Let_def split: sum.splits if_splits)

lemma fta_flags_total: "e \<noteq> 0 \<Longrightarrow> \<exists>ft. fta_flags x e = Inr ft"
  by (cases x) (simp_all add: fta_flags_def py_div_def)

lemma projection_flags_total: "e \<noteq> 0 \<Longrightarrow> \<exists>fl. projection_flags a t e = Inr fl"
  using fta_flags_total [of e "in_fta_total a"]
  by (auto simp: projection_flags_def)

text \<open>At 48 elapsed minutes the bounds check passes and the needed pace divides by zero.\<close>

lemma compute_projection_full_time:
  assumes "clock_elapsed (in_quarter a) (in_time_left_mmss a) = Inr (t, 48)"
  shows "compute_projection a ts = Inl ZeroDivisionError"
  using assms by (simp add: compute_projection_def py_div_def Let_def)

lemma compute_projection_Inr:
  assumes "clock_elapsed (in_quarter a) (in_time_left_mmss a) = Inr (t, e)"
    and "e \<noteq> 48" and "projection_flags a t e = Inr fl"
  shows "\<exists>r. compute_projection a ts = Inr r \<and>
           elapsed_min r = e \<and>
           alpha_used r =
             (case in_alpha a of None \<Rightarrow> auto_alpha e | Some x \<Rightarrow> clamp x 0.05 0.95) \<and>
           flags r = (if fl = [] then ''NONE'' else join '';'' fl)"
proof -
  from clock_elapsedD [OF assms(1)] have "e \<noteq> 0" by simp
  with assms show ?thesis
    by (simp add: compute_projection_def py_div_def Let_def)
qed

text \<open>Every returned record comes from a clock strictly inside the game.\<close>

lemma compute_projection_InrD:
  assumes "compute_projection a ts = Inr r"
  shows "\<exists>t e fl. clock_elapsed (in_quarter a) (in_time_left_mmss a) = Inr (t, e) \<and>
           0 < e \<and> e < 48 \<and> projection_flags a t e = Inr fl \<and>
           elapsed_min r = e \<and>
           alpha_used r =
             (case in_alpha a of None \<Rightarrow> auto_alpha e | Some x \<Rightarrow> clamp x 0.05 0.95) \<and>
           flags r = (if fl = [] then ''NONE'' else join '';'' fl)"
proof (cases "clock_elapsed (in_quarter a) (in_time_left_mmss a)")
  case (Inl err)
  with assms show ?thesis by (simp add: compute_projection_def)
next
  case (Inr p)
  obtain t e where p: "p = (t, e)" by (cases p)
  from clock_elapsedD [OF Inr [unfolded p]] have e: "0 < e" "e \<le> 48" by simp_all
  show ?thesis
  proof (cases "e = 48")
    case True
    with Inr p compute_projection_full_time [of a t ts] assms show ?thesis by simp
  next
    case False
    from e obtain fl where fl: "projection_flags a t e = Inr fl"
      using projection_flags_total [of e a t] by auto
    from compute_projection_Inr [OF Inr [unfolded p] False fl, of ts] assms
    show ?thesis using Inr p e False fl by auto
  qed
qed

lemma clamp_bounds: "lo \<le> hi \<Longrightarrow> lo \<le> clamp x lo hi \<and> clamp x lo hi \<le> hi"
  by (simp add: clamp_def)

lemma clamp_mono: "x \<le> y \<Longrightarrow> clamp x lo hi \<le> clamp y lo hi"
  by (auto simp: clamp_def max_def min_def)

lemma auto_alpha_mono: "e1 \<le> e2 \<Longrightarrow> auto_alpha e1 \<le> auto_alpha e2"
  unfolding auto_alpha_def by (rule clamp_mono) simp

lemma auto_alpha_bounds: "0.35 \<le> auto_alpha e \<and> auto_alpha e \<le> 0.90"
  unfolding auto_alpha_def by (rule clamp_bounds) simp

subsection \<open>The end of regulation\<close>

text \<open>
  C1. The claim: when the quarter and the clock give exactly 48 elapsed minutes (quarter 4,
  \<^verbatim>\<open>'0:00'\<close>), the zero denominator \<open>48 - elapsed\<close> is guarded and the call fails with
  the error of the bounds check. The code does not do so: whatever the other arguments
  are, the bounds check lets 48 through and the call ends in \<^verbatim>\<open>ZeroDivisionError\<close>,
  raised by the division that computes the needed pace.
\<close>

theorem full_time_zero_division:
  "compute_projection (a\<lparr>in_quarter := 4, in_time_left_mmss := ''0:00''\<rparr>) ts =
     Inl ZeroDivisionError"
proof -
  have "clock_elapsed 4 ''0:00'' = Inr (0, 48)"
    by code_simp
  then show ?thesis
    by (intro compute_projection_full_time [where t = 0]) simp
qed

subsection \<open>The worked scenario\<close>

text \<open>
  C2. Quarter 3 with \<^verbatim>\<open>'6:00'\<close> left, 150 points, a live total of 224, a pregame total
  of 228.5 and every keyword parameter at its default: the call returns 30 elapsed
  minutes, the weight 0.71, a pace of 5 points per minute, the blended projection
  \<open>150 + (0.71 * 5 + 0.29 * (228.5 / 48)) * 18\<close> (about 238.7), the edge
  \<open>blended_proj - 224\<close> (about 14.7) and the lean OVER.
\<close>

theorem scenario_third_quarter:
  "\<exists>r. compute_projection (default_args 3 ''6:00'' 150 224 228.5) ts = Inr r \<and>
       elapsed_min r = 30 \<and>
       alpha_used r = 0.71 \<and>
       pace_ppm r = 5 \<and>
       blended_proj r = 150 + (0.71 * 5 + 0.29 * (228.5 / 48)) * 18 \<and>
       \<bar>blended_proj r - 238.7\<bar> < 0.1 \<and>
       edge_vs_live r = blended_proj r - 224 \<and>
       \<bar>edge_vs_live r - 14.7\<bar> < 0.1 \<and>
       lean r = ''LEAN: OVER''"
proof -
  have ce: "clock_elapsed 3 ''6:00'' = Inr (6, 30)"
    by code_simp
  show ?thesis
    by (simp add: compute_projection_def default_args_def ce py_div_def auto_alpha_def
        clamp_def boost_of_def projection_flags_def fta_flags_def lean_of_def Let_def)
qed

subsection \<open>The clock\<close>

text \<open>
  C3. For a clock string that splits at its colon into two literals read by \<^verbatim>\<open>int\<close> as
  \<open>m\<close> minutes and \<open>s\<close> seconds, with \<open>0 \<le> m\<close> and \<open>0 \<le> s < 60\<close>, the elapsed time is
  \<open>(q - 1) * 12 + (12 - m - s / 60)\<close>; the call fails with the bounds error exactly when
  this value is at most 0 or above 48, and otherwise the value is what the head of
  \<^verbatim>\<open>compute_projection\<close> goes on with (next to the minutes left). The witness below
  is the claim's own pair of boundary cases: quarter 4 at \<^verbatim>\<open>'0:00'\<close> gives 48 exactly and
  quarter 1 at \<^verbatim>\<open>'12:00'\<close> is rejected.
\<close>

theorem clock_elapsed_formula:
  assumes "split_on CHR '':'' (strip str) = [pm, ps]"
    and "py_int pm = Inr m" and "py_int ps = Inr s"
    and "0 \<le> m" and "0 \<le> s" and "s < 60"
  shows "clock_elapsed q str =
           (let e = real_of_int (q - 1) * 12 + (12 - real_of_int m - real_of_int s / 60)
            in if e \<le> 0 \<or> e > 48
               then Inl (ValueError ''Elapsed time out of bounds. Check quarter/time left.'')
               else Inr (real_of_int m + real_of_int s / 60, e))"
  using assms by (simp add: clock_elapsed_def parse_mmss_def Let_def)

theorem clock_elapsed_formula_witness:
  "clock_elapsed 4 ''0:00'' = Inr (0, 48) \<and>
   clock_elapsed 1 ''12:00'' =
     Inl (ValueError ''Elapsed time out of bounds. Check quarter/time left.'')"
proof -
  have a: "split_on CHR '':'' (strip ''0:00'') = [''0'', ''00'']" by code_simp
  have b: "py_int ''0'' = Inr 0" by code_simp
  have c: "py_int ''00'' = Inr 0" by code_simp
  have a': "split_on CHR '':'' (strip ''12:00'') = [''12'', ''00'']" by code_simp
  have b': "py_int ''12'' = Inr 12" by code_simp
  from clock_elapsed_formula [OF a b c, of 4] clock_elapsed_formula [OF a' b' c, of 1]
  show ?thesis by simp
qed

subsection \<open>The weight of the live pace\<close>

text \<open>
  C4. Whenever the projection returns a record: a supplied alpha is used clamped to
  \<open>[0.05, 0.95]\<close>, whatever its magnitude (0.05 below the interval, 0.95 above it, the
  alpha itself inside); with no alpha the weight is \<open>0.35 + 0.012 * elapsed\<close> clamped
  to \<open>[0.35, 0.90]\<close> in the same way. This schedule, \<open>auto_alpha\<close>, is
  \<open>max 0.35 (min 0.90 (0.35 + 0.012 * e))\<close> for every \<open>e\<close>; it lies in
  \<open>[0.35, 0.90]\<close> and does not decrease when the elapsed time grows.
\<close>

theorem alpha_used_clamped:
  assumes "compute_projection a ts = Inr r"
  shows "(\<forall>al. in_alpha a = Some al \<longrightarrow>
            alpha_used r = (if al < 0.05 then 0.05 else if 0.95 < al then 0.95 else al) \<and>
            alpha_used r = max 0.05 (min 0.95 al) \<and>
            0.05 \<le> alpha_used r \<and> alpha_used r \<le> 0.95) \<and>
         (in_alpha a = None \<longrightarrow>
            alpha_used r =
              (if 0.35 + 0.012 * elapsed_min r < 0.35 then 0.35
               else if 0.90 < 0.35 + 0.012 * elapsed_min r then 0.90
               else 0.35 + 0.012 * elapsed_min r) \<and>
            alpha_used r = max 0.35 (min 0.90 (0.35 + 0.012 * elapsed_min r)) \<and>
            0.35 \<le> alpha_used r \<and> alpha_used r \<le> 0.90) \<and>
         (\<forall>e. auto_alpha e = max 0.35 (min 0.90 (0.35 + 0.012 * e)) \<and>
              0.35 \<le> auto_alpha e \<and> auto_alpha e \<le> 0.90) \<and>
         (\<forall>e1 e2. e1 \<le> e2 \<longrightarrow> auto_alpha e1 \<le> auto_alpha e2)"
proof -
  from compute_projection_InrD [OF assms] obtain e where
    e: "elapsed_min r = e"
    and al: "alpha_used r =
      (case in_alpha a of None \<Rightarrow> auto_alpha e | Some x \<Rightarrow> clamp x 0.05 0.95)"
    by blast
  have supplied: "\<forall>al. in_alpha a = Some al \<longrightarrow>
            alpha_used r = (if al < 0.05 then 0.05 else if 0.95 < al then 0.95 else al) \<and>
            alpha_used r = max 0.05 (min 0.95 al) \<and>
            0.05 \<le> alpha_used r \<and> alpha_used r \<le> 0.95"
  proof (intro allI impI)
    fix x assume "in_alpha a = Some x"
    with al have "alpha_used r = max 0.05 (min 0.95 x)"
      by (simp add: clamp_def)
    then show "alpha_used r = (if x < 0.05 then 0.05 else if 0.95 < x then 0.95 else x) \<and>
            alpha_used r = max 0.05 (min 0.95 x) \<and>
            0.05 \<le> alpha_used r \<and> alpha_used r \<le> 0.95"
      by (simp add: max_def min_def)
  qed
  have absent: "in_alpha a = None \<longrightarrow>
            alpha_used r =
              (if 0.35 + 0.012 * elapsed_min r < 0.35 then 0.35
               else if 0.90 < 0.35 + 0.012 * elapsed_min r then 0.90
               else 0.35 + 0.012 * elapsed_min r) \<and>
            alpha_used r = max 0.35 (min 0.90 (0.35 + 0.012 * elapsed_min r)) \<and>
            0.35 \<le> alpha_used r \<and> alpha_used r \<le> 0.90"
  proof
    assume "in_alpha a = None"
    with al e have "alpha_used r = max 0.35 (min 0.90 (0.35 + 0.012 * elapsed_min r))"
      by (simp add: auto_alpha_def clamp_def)
    then show "alpha_used r =
              (if 0.35 + 0.012 * elapsed_min r < 0.35 then 0.35
               else if 0.90 < 0.35 + 0.012 * elapsed_min r then 0.90
               else 0.35 + 0.012 * elapsed_min r) \<and>
            alpha_used r = max 0.35 (min 0.90 (0.35 + 0.012 * elapsed_min r)) \<and>
            0.35 \<le> alpha_used r \<and> alpha_used r \<le> 0.90"
      by (simp add: max_def min_def)
  qed
  have schedule: "\<forall>e. auto_alpha e = max 0.35 (min 0.90 (0.35 + 0.012 * e)) \<and>
              0.35 \<le> auto_alpha e \<and> auto_alpha e \<le> 0.90"
    using auto_alpha_bounds by (simp add: auto_alpha_def clamp_def)
  from supplied absent schedule auto_alpha_mono show ?thesis by blast
qed

theorem alpha_used_clamped_witness:
  "(\<exists>r. compute_projection
           ((default_args 3 ''6:00'' 150 224 228.5)\<lparr>in_alpha := Some 0.5\<rparr>) ''t'' = Inr r \<and>
        alpha_used r = 0.5) \<and>
   (\<exists>r. compute_projection
           ((default_args 3 ''6:00'' 150 224 228.5)\<lparr>in_alpha := Some 7\<rparr>) ''t'' = Inr r \<and>
        alpha_used r = 0.95) \<and>
   (\<exists>r. compute_projection (default_args 3 ''6:00'' 150 224 228.5) ''t'' = Inr r \<and>
        elapsed_min r = 30 \<and> alpha_used r = 0.71) \<and>
   auto_alpha 10 = 0.47 \<and> auto_alpha 10 < auto_alpha 30"
proof -
  have ce: "clock_elapsed 3 ''6:00'' = Inr (6, 30)"
    by code_simp
  have ex: "\<exists>r. compute_projection
          ((default_args 3 ''6:00'' 150 224 228.5)\<lparr>in_alpha := x\<rparr>) ''t'' = Inr r \<and>
          elapsed_min r = 30" for x
    by (simp add: compute_projection_def default_args_def ce py_div_def
        projection_flags_def fta_flags_def Let_def)
  from ex [of "Some 0.5"] obtain r1 where
    r1: "compute_projection
          ((default_args 3 ''6:00'' 150 224 228.5)\<lparr>in_alpha := Some 0.5\<rparr>) ''t'' = Inr r1"
    by blast
  have i1: "in_alpha ((default_args 3 ''6:00'' 150 224 228.5)\<lparr>in_alpha := Some 0.5\<rparr>) =
      Some 0.5"
    by simp
  from alpha_used_clamped [OF r1] i1
  have "alpha_used r1 =
      (if (0.5 :: real) < 0.05 then 0.05 else if 0.95 < (0.5 :: real) then 0.95 else 0.5)"
    by blast
  then have a1: "alpha_used r1 = 0.5" by simp
  from ex [of "Some 7"] obtain r2 where
    r2: "compute_projection
          ((default_args 3 ''6:00'' 150 224 228.5)\<lparr>in_alpha := Some 7\<rparr>) ''t'' = Inr r2"
    by blast
  have i2: "in_alpha ((default_args 3 ''6:00'' 150 224 228.5)\<lparr>in_alpha := Some 7\<rparr>) = Some 7"
    by simp
  from alpha_used_clamped [OF r2] i2
  have "alpha_used r2 =
      (if (7 :: real) < 0.05 then 0.05 else if 0.95 < (7 :: real) then 0.95 else 7)"
    by blast
  then have a2: "alpha_used r2 = 0.95" by simp
  from ex [of None] obtain r3 where
    r3: "compute_projection
          ((default_args 3 ''6:00'' 150 224 228.5)\<lparr>in_alpha := None\<rparr>) ''t'' = Inr r3"
    and e3: "elapsed_min r3 = 30"
    by blast
  have i3: "in_alpha ((default_args 3 ''6:00'' 150 224 228.5)\<lparr>in_alpha := None\<rparr>) = None"
    by simp
  from alpha_used_clamped [OF r3] i3
  have "alpha_used r3 = max 0.35 (min 0.90 (0.35 + 0.012 * elapsed_min r3))"
    by blast
  then have a3: "alpha_used r3 = 0.71" unfolding e3 by simp
  have r3': "compute_projection (default_args 3 ''6:00'' 150 224 228.5) ''t'' = Inr r3"
    using r3 by (simp add: default_args_def)
  from alpha_used_clamped [OF r3]
  have "auto_alpha 10 = max 0.35 (min 0.90 (0.35 + 0.012 * 10))"
    and "auto_alpha 30 = max 0.35 (min 0.90 (0.35 + 0.012 * 30))"
    by blast+
  then have s: "auto_alpha 10 = 0.47" "auto_alpha 30 = 0.71"
    by simp_all
  have lt: "auto_alpha 10 < auto_alpha 30"
    unfolding s by simp
  from r1 a1 r2 a2 r3' e3 a3 s(1) lt show ?thesis by blast
qed

subsection \<open>The flags\<close>

lemma bonus_flags_category:
  "length (bonus_flags b q t) \<le> 1 \<and> (\<forall>f \<in> set (bonus_flags b q t). flag_category f = 1)"
  by (simp add: bonus_flags_def flag_category_def)

lemma ft_parade_flags_category:
  "length (ft_parade_flags b) \<le> 1 \<and> (\<forall>f \<in> set (ft_parade_flags b). flag_category f = 2)"
  by (simp add: ft_parade_flags_def flag_category_def)

lemma fta_flags_category:
  assumes "fta_flags x e = Inr ft"
  shows "length ft \<le> 1 \<and> (\<forall>f \<in> set ft. flag_category f = 3)"
proof (cases x)
  case None
  with assms show ?thesis by (simp add: fta_flags_def)
next
  case (Some fta)
  show ?thesis
  proof (cases "e = 0")
    case True
    with assms Some show ?thesis by (simp add: fta_flags_def py_div_def)
  next
    case False
    define rate where "rate = fta / e"
    have "fta_flags (Some fta) e =
          Inr [if rate \<ge> 1.10 then ''HIGH_FT_RATE('' @ fmt_fixed 2 rate @ ''/min)''
               else if rate \<ge> 0.85 then ''ELEVATED_FT_RATE('' @ fmt_fixed 2 rate @ ''/min)''
               else ''FT_RATE_OK('' @ fmt_fixed 2 rate @ ''/min)'']"
      unfolding rate_def fta_flags_def py_div_def using False by simp
    with assms Some have ft: "ft =
          [if rate \<ge> 1.10 then ''HIGH_FT_RATE('' @ fmt_fixed 2 rate @ ''/min)''
           else if rate \<ge> 0.85 then ''ELEVATED_FT_RATE('' @ fmt_fixed 2 rate @ ''/min)''
           else ''FT_RATE_OK('' @ fmt_fixed 2 rate @ ''/min)'']"
      by simp
    show ?thesis unfolding ft by (simp add: flag_category_def)
  qed
qed

lemma fta_flags_Some:
  assumes "fta_flags (Some fta) e = Inr ft" and "e \<noteq> 0"
  shows "\<exists>f. ft = [f] \<and>
           (prefix ''HIGH_FT_RATE('' f \<longleftrightarrow> fta / e \<ge> 1.10) \<and>
           (prefix ''ELEVATED_FT_RATE('' f \<longleftrightarrow> 0.85 \<le> fta / e \<and> fta / e < 1.10) \<and>
           (prefix ''FT_RATE_OK('' f \<longleftrightarrow> fta / e < 0.85)"
proof -
  define rate where "rate = fta / e"
  have "fta_flags (Some fta) e =
          Inr [if rate \<ge> 1.10 then ''HIGH_FT_RATE('' @ fmt_fixed 2 rate @ ''/min)''
               else if rate \<ge> 0.85 then ''ELEVATED_FT_RATE('' @ fmt_fixed 2 rate @ ''/min)''
               else ''FT_RATE_OK('' @ fmt_fixed 2 rate @ ''/min)'']"
    unfolding rate_def fta_flags_def py_div_def using assms(2) by simp
  with assms(1) have ft: "ft =
          [if rate \<ge> 1.10 then ''HIGH_FT_RATE('' @ fmt_fixed 2 rate @ ''/min)''
           else if rate \<ge> 0.85 then ''ELEVATED_FT_RATE('' @ fmt_fixed 2 rate @ ''/min)''
           else ''FT_RATE_OK('' @ fmt_fixed 2 rate @ ''/min)'']"
    by simp
  have "\<exists>f. ft = [f] \<and>
           (prefix ''HIGH_FT_RATE('' f \<longleftrightarrow> rate \<ge> 1.10) \<and>
           (prefix ''ELEVATED_FT_RATE('' f \<longleftrightarrow> 0.85 \<le> rate \<and> rate < 1.10) \<and>
           (prefix ''FT_RATE_OK('' f \<longleftrightarrow> rate < 0.85)"
    unfolding ft by simp
  then show ?thesis unfolding rate_def .
qed

lemma three_pt_flags_category:
  "length (three_pt_flags p) \<le> 1 \<and> (\<forall>f \<in> set (three_pt_flags p). flag_category f = 4)"
  by (cases p) (simp_all add: three_pt_flags_def flag_category_def)

lemma ot_flags_category:
  "length (ot_flags b p x) \<le> 1 \<and> (\<forall>f \<in> set (ot_flags b p x). flag_category f = 5)"
  by (simp add: ot_flags_def flag_category_def)

lemma sorted_wrt_short: "length xs \<le> 1 \<Longrightarrow> sorted_wrt P xs"
  by (cases xs) auto

lemma filter_other_category:
  fixes c :: "'a \<Rightarrow> nat"
  shows "\<forall>f \<in> set xs. c f = k \<Longrightarrow> k \<noteq> j \<Longrightarrow> filter (\<lambda>f. c f = j) xs = []"
  by (induction xs) auto

lemma filter_same_category:
  fixes c :: "'a \<Rightarrow> nat"
  shows "\<forall>f \<in> set xs. c f = k \<Longrightarrow> filter (\<lambda>f. c f = k) xs = xs"
  by (induction xs) auto

lemma five_groups_sorted:
  fixes c :: "'a \<Rightarrow> nat"
  assumes "length x1 \<le> 1" "\<forall>f \<in> set x1. c f = 1"
    and "length x2 \<le> 1" "\<forall>f \<in> set x2. c f = 2"
    and "length x3 \<le> 1" "\<forall>f \<in> set x3. c f = 3"
    and "length x4 \<le> 1" "\<forall>f \<in> set x4. c f = 4"
    and "length x5 \<le> 1" "\<forall>f \<in> set x5. c f = 5"
  shows "sorted_wrt (<) (map c (x1 @ x2 @ x3 @ x4 @ x5))"
proof -
  let ?R = "\<lambda>x y. c x < c y"
  have s: "sorted_wrt ?R x1" "sorted_wrt ?R x2" "sorted_wrt ?R x3" "sorted_wrt ?R x4"
    "sorted_wrt ?R x5"
    using assms by (simp_all add: sorted_wrt_short)
  have 45: "sorted_wrt ?R (x4 @ x5)"
    using s(4,5) assms(8,10) by (auto simp: sorted_wrt_append)
  have 345: "sorted_wrt ?R (x3 @ x4 @ x5)"
    using s(3) 45 assms(6,8,10) by (auto simp: sorted_wrt_append)
  have 2345: "sorted_wrt ?R (x2 @ x3 @ x4 @ x5)"
    using s(2) 345 assms(4,6,8,10) by (auto simp: sorted_wrt_append)
  have "sorted_wrt ?R (x1 @ x2 @ x3 @ x4 @ x5)"
    using s(1) 2345 assms(2,4,6,8,10) by (auto simp: sorted_wrt_append)
  then show ?thesis by (simp only: sorted_wrt_map)
qed

lemma filter_category_le1:
  fixes c :: "'a \<Rightarrow> nat"
  shows "sorted_wrt (<) (map c xs) \<Longrightarrow> length (filter (\<lambda>f. c f = k) xs) \<le> 1"
proof (induction xs)
  case Nil
  then show ?case by simp
next
  case (Cons x xs)
  show ?case
  proof (cases "c x = k")
    case True
    with Cons.prems have "\<forall>y \<in> set xs. c y \<noteq> k" by auto
    then have "filter (\<lambda>f. c f = k) xs = []" by (simp add: filter_empty_conv)
    with True show ?thesis by simp
  next
    case False
    with Cons show ?thesis by simp
  qed
qed

lemma length_filter_mono:
  "(\<And>x. P x \<Longrightarrow> Q x) \<Longrightarrow> length (filter P xs) \<le> length (filter Q xs)"
  by (induction xs) auto

text \<open>
  C8. Whenever the projection returns a record, its flag string is the join of the list
  that the detection steps build, and in this list every flag has a category, the
  categories strictly increase (so the flags stand in the order bonus, FT parade,
  FT rate, three-point, overtime, and no category occurs twice), at most one flag is one
  of the two bonus flags, and, when free-throw attempts are supplied, exactly one flag is
  a free-throw-rate flag: HIGH\_FT\_RATE when the rate is at least 1.10,
  ELEVATED\_FT\_RATE when it is at least 0.85 and below 1.10, FT\_RATE\_OK below 0.85,
  where the rate is the attempts divided by the elapsed minutes.
\<close>

theorem flags_ordered_by_category:
  assumes "compute_projection a ts = Inr r"
  shows "\<exists>tleft fl.
           clock_elapsed (in_quarter a) (in_time_left_mmss a) = Inr (tleft, elapsed_min r) \<and>
           projection_flags a tleft (elapsed_min r) = Inr fl \<and>
           flags r = (if fl = [] then ''NONE'' else join '';'' fl) \<and>
           (\<forall>f \<in> set fl. flag_category f \<noteq> 0) \<and>
           sorted_wrt (<) (map flag_category fl) \<and>
           length (filter (\<lambda>f. f = ''EARLY_BONUS_HIGH_RISK'' \<or> f = ''BONUS/WHISTLES_ON'') fl)
             \<le> 1 \<and>
           (\<forall>fta. in_fta_total a = Some fta \<longrightarrow>
              (\<exists>f. filter (\<lambda>f. flag_category f = 3) fl = [f] \<and>
                   (prefix ''HIGH_FT_RATE('' f \<longleftrightarrow> fta / elapsed_min r \<ge> 1.10) \<and>
                   (prefix ''ELEVATED_FT_RATE('' f \<longleftrightarrow>
                      0.85 \<le> fta / elapsed_min r \<and> fta / elapsed_min r < 1.10) \<and>
                   (prefix ''FT_RATE_OK('' f \<longleftrightarrow> fta / elapsed_min r < 0.85)))"
proof -
  from compute_projection_InrD [OF assms] obtain t e fl where
    ce: "clock_elapsed (in_quarter a) (in_time_left_mmss a) = Inr (t, e)"
    and e: "0 < e"
    and pf: "projection_flags a t e = Inr fl"
    and em: "elapsed_min r = e"
    and fr: "flags r = (if fl = [] then ''NONE'' else join '';'' fl)"
    by blast
  let ?b = "bonus_flags (in_bonus a) (in_quarter a) t"
  let ?p = "ft_parade_flags (in_ft_parade a)"
  let ?t = "three_pt_flags (in_three_pt_pct a)"
  let ?o = "ot_flags (in_ot_on a) (in_ot_prob_pct a) (in_ot_expected_points a)"
  from pf obtain ft where
    ft: "fta_flags (in_fta_total a) e = Inr ft" and fl: "fl = ?b @ ?p @ ft @ ?t @ ?o"
    by (auto simp: projection_flags_def split: sum.splits)
  have cb: "length ?b \<le> 1" "\<forall>f \<in> set ?b. flag_category f = 1"
    using bonus_flags_category by blast+
  have cp: "length ?p \<le> 1" "\<forall>f \<in> set ?p. flag_category f = 2"
    using ft_parade_flags_category by blast+
  have cf: "length ft \<le> 1" "\<forall>f \<in> set ft. flag_category f = 3"
    using fta_flags_category [OF ft] by blast+
  have ct: "length ?t \<le> 1" "\<forall>f \<in> set ?t. flag_category f = 4"
    using three_pt_flags_category by blast+
  have co: "length ?o \<le> 1" "\<forall>f \<in> set ?o. flag_category f = 5"
    using ot_flags_category by blast+
  have sorted: "sorted_wrt (<) (map flag_category fl)"
    unfolding fl by (rule five_groups_sorted [OF cb cp cf ct co])
  have nonzero: "\<forall>f \<in> set fl. flag_category f \<noteq> 0"
  proof
    fix f assume "f \<in> set fl"
    then consider "f \<in> set ?b" | "f \<in> set ?p" | "f \<in> set ft" | "f \<in> set ?t" | "f \<in> set ?o"
      unfolding fl by auto
    then show "flag_category f \<noteq> 0"
      using cb(2) cp(2) cf(2) ct(2) co(2) by cases simp_all
  qed
  have "length (filter (\<lambda>f. f = ''EARLY_BONUS_HIGH_RISK'' \<or> f = ''BONUS/WHISTLES_ON'') fl)
          \<le> length (filter (\<lambda>f. flag_category f = 1) fl)"
    by (rule length_filter_mono) (auto simp: flag_category_def)
  also have "\<dots> \<le> 1"
    by (rule filter_category_le1 [OF sorted])
  finally have bonus:
    "length (filter (\<lambda>f. f = ''EARLY_BONUS_HIGH_RISK'' \<or> f = ''BONUS/WHISTLES_ON'') fl) \<le> 1" .
  have f3: "filter (\<lambda>f. flag_category f = 3) fl = ft"
    unfolding fl
    by (simp add: filter_other_category [OF cb(2)] filter_other_category [OF cp(2)]
        filter_other_category [OF ct(2)] filter_other_category [OF co(2)]
        filter_same_category [OF cf(2)])
  have rate: "\<forall>fta. in_fta_total a = Some fta \<longrightarrow>
              (\<exists>f. filter (\<lambda>f. flag_category f = 3) fl = [f] \<and>
                   (prefix ''HIGH_FT_RATE('' f \<longleftrightarrow> fta / e \<ge> 1.10) \<and>
                   (prefix ''ELEVATED_FT_RATE('' f \<longleftrightarrow> 0.85 \<le> fta / e \<and> fta / e < 1.10) \<and>
                   (prefix ''FT_RATE_OK('' f \<longleftrightarrow> fta / e < 0.85))"
  proof (intro allI impI)
    fix fta assume "in_fta_total a = Some fta"
    with ft have "fta_flags (Some fta) e = Inr ft" by simp
    from fta_flags_Some [OF this] e show
      "\<exists>f. filter (\<lambda>f. flag_category f = 3) fl = [f] \<and>
           (prefix ''HIGH_FT_RATE('' f \<longleftrightarrow> fta / e \<ge> 1.10) \<and>
           (prefix ''ELEVATED_FT_RATE('' f \<longleftrightarrow> 0.85 \<le> fta / e \<and> fta / e < 1.10) \<and>
           (prefix ''FT_RATE_OK('' f \<longleftrightarrow> fta / e < 0.85)"
      unfolding f3 by simp
  qed
  from ce pf fr nonzero sorted bonus rate show ?thesis
    unfolding em by blast
qed

theorem flags_ordered_by_category_witness:
  "\<exists>r. compute_projection
          ((default_args 2 ''7:10'' 60 224 228.5)
             \<lparr>in_bonus := True, in_ft_parade := True, in_fta_total := Some 20,
              in_three_pt_pct := Some 0.45, in_ot_on := True\<rparr>) ''t'' = Inr r \<and>
       (\<exists>tleft fl.
          projection_flags
            ((default_args 2 ''7:10'' 60 224 228.5)
               \<lparr>in_bonus := True, in_ft_parade := True, in_fta_total := Some 20,
                in_three_pt_pct := Some 0.45, in_ot_on := True\<rparr>) tleft (elapsed_min r) = Inr fl \<and>
          sorted_wrt (<) (map flag_category fl) \<and>
          (\<exists>f. filter (\<lambda>f. flag_category f = 3) fl = [f] \<and> prefix ''HIGH_FT_RATE('' f))"
  (is "\<exists>r. compute_projection ?a _ = _ \<and> _")
proof -
  have ce0: "clock_elapsed 2 ''7:10'' = Inr (43 / 6, 101 / 6)"
    by code_simp
  have ce: "clock_elapsed (in_quarter ?a) (in_time_left_mmss ?a) = Inr (43 / 6, 101 / 6)"
    by (simp add: default_args_def ce0)
  obtain fl0 where pf0: "projection_flags ?a (43 / 6) (101 / 6) = Inr fl0"
    using projection_flags_total [of "101 / 6" ?a "43 / 6"] by auto
  have ne: "(101 / 6 :: real) \<noteq> 48" by simp
  from compute_projection_Inr [OF ce ne pf0, of "''t''"] obtain r where
    r: "compute_projection ?a ''t'' = Inr r" and em: "elapsed_min r = 101 / 6"
    by auto
  from flags_ordered_by_category [OF r] obtain tleft fl where
    pf: "projection_flags ?a tleft (elapsed_min r) = Inr fl"
    and sorted: "sorted_wrt (<) (map flag_category fl)"
    and rate: "\<forall>fta. in_fta_total ?a = Some fta \<longrightarrow>
              (\<exists>f. filter (\<lambda>f. flag_category f = 3) fl = [f] \<and>
                   (prefix ''HIGH_FT_RATE('' f \<longleftrightarrow> fta / elapsed_min r \<ge> 1.10) \<and>
                   (prefix ''ELEVATED_FT_RATE('' f \<longleftrightarrow>
                      0.85 \<le> fta / elapsed_min r \<and> fta / elapsed_min r < 1.10) \<and>
                   (prefix ''FT_RATE_OK('' f \<longleftrightarrow> fta / elapsed_min r < 0.85))"
    by blast
  have "in_fta_total ?a = Some 20" by (simp add: default_args_def)
  with rate have "\<exists>f. filter (\<lambda>f. flag_category f = 3) fl = [f] \<and>
      (prefix ''HIGH_FT_RATE('' f \<longleftrightarrow> 20 / elapsed_min r \<ge> 1.10)"
    by blast
  then have "\<exists>f. filter (\<lambda>f. flag_category f = 3) fl = [f] \<and> prefix ''HIGH_FT_RATE('' f"
    unfolding em by simp
  with r pf sorted show ?thesis by blast
qed

section \<open>Properties of the hedge\<close>

subsection \<open>What a call returns\<close>

lemma str_contains_sublist: "str_contains f p = sublist p f"
  by (induction f) (simp_all add: sublist_Cons_right)

lemma is_space_upper_char: "is_space (upper_char c) = is_space c"
  by (auto simp: is_space_def upper_char_def Let_def)

lemma strip_upper: "strip (upper s) = upper (strip s)"
  by (simp add: strip_def upper_def dropWhile_map rev_map comp_def is_space_upper_char)

lemma dec_from_american_Inr: "a \<noteq> 0 \<Longrightarrow> \<exists>d. dec_from_american a = Inr d \<and> 1 < d"
  by (simp add: dec_from_american_def)

lemma hedge_equalize_side_error:
  assumes "strip (upper side) \<noteq> ''UNDER''" and "strip (upper side) \<noteq> ''OVER''"
  shows "hedge_equalize side ml st a0 hl ah live fl =
           Inl (ValueError ''my_side must be UNDER or OVER.'')"
  using assms by (simp add: hedge_equalize_def Let_def)

lemma hedge_equalize_Inr:
  assumes "strip (upper side) = ''UNDER'' \<or> strip (upper side) = ''OVER''"
    and "dec_from_american a0 = Inr dec0" and "dec_from_american ah = Inr dech"
  shows "hedge_equalize side ml st a0 hl ah live fl =
           Inr \<lparr>suggestion =
                  suggestion_of
                    (if strip (upper side) = ''UNDER'' then ml - live else live - ml)
                    (length (filter is_bad_flag fl)) (length (filter is_warn_flag fl)),
                equalized_hedge_stake = st * dec0 / dech,
                middle_note = middle_note_of (strip (upper side)) ml hl,
                worst_case_profit =
                  min (st * (dec0 - 1) + - (st * dec0 / dech))
                      (- st + st * dec0 / dech * (dech - 1)),
                best_case_profit = st * (dec0 - 1) + st * dec0 / dech * (dech - 1)\<rparr>"
proof -
  from assms(3) have "dech \<noteq> 0"
    by (auto simp: dec_from_american_def split: if_splits) 
  with assms show ?thesis
    by (auto simp: hedge_equalize_def Let_def py_div_def)
qed


lemma hedge_equalize_zero_odds:
  assumes "a0 = 0 \<or> ah = 0"
  shows "\<exists>msg. hedge_equalize side ml st a0 hl ah live fl = Inl (ValueError msg)"
  using assms
  by (auto simp: hedge_equalize_def Let_def dec_from_american_def)

lemma strip_upper_UNDER: "strip (upper ''UNDER'') = ''UNDER''"
  by code_simp

lemma strip_upper_OVER: "strip (upper ''OVER'') = ''OVER''"
  by code_simp

subsection \<open>Rejected inputs\<close>

text \<open>
  C5. The claim: the hedge always raises its validation error when either American odds
  value is 0, and always when the side argument is other than OVER or UNDER. The second
  half fails as stated, since the side is upper-cased and stripped before it is checked:
  the side \<^verbatim>\<open>'under'\<close> is neither of the two strings and the call returns a result.
\<close>
theorem lowercase_side_accepted:
  "''under'' \<noteq> ''UNDER'' \<and> ''under'' \<noteq> ''OVER'' \<and>
   hedge_equalize ''under'' 228.5 100 (-110) 225.5 (-110) 222 [] =
     Inr \<lparr>suggestion = ''Hold (good CLV)'', equalized_hedge_stake = 100,
          middle_note = ''Middle range (both win): 225.5 to 228.5 (excluding pushes).'',
          worst_case_profit = - (100 / 11), best_case_profit = 2000 / 11\<rparr>"
  by code_simp

text \<open>
  C5, as the code has it: a zero among the two odds always ends in a \<^verbatim>\<open>ValueError\<close>,
  and so does a side whose upper-cased, stripped form is neither OVER nor UNDER; an
  error value carries no result.
\<close>

theorem hedge_equalize_rejects:
  "(a0 = 0 \<or> ah = 0 \<longrightarrow>
      (\<exists>msg. hedge_equalize side ml st a0 hl ah live fl = Inl (ValueError msg))) \<and>
   (strip (upper side) \<noteq> ''OVER'' \<and> strip (upper side) \<noteq> ''UNDER'' \<longrightarrow>
      hedge_equalize side ml st a0 hl ah live fl =
        Inl (ValueError ''my_side must be UNDER or OVER.''))"
  using hedge_equalize_zero_odds [of a0 ah side ml st hl live fl]
    hedge_equalize_side_error [of side ml st a0 hl ah live fl]
  by blast

theorem hedge_equalize_rejects_witness:
  "(\<exists>msg. hedge_equalize ''UNDER'' 228.5 100 0 225.5 (-110) 222 [] = Inl (ValueError msg)) \<and>
   hedge_equalize ''sideways'' 228.5 100 (-110) 225.5 (-110) 222 [] =
     Inl (ValueError ''my_side must be UNDER or OVER.'')"
proof -
  have n: "strip (upper ''sideways'') \<noteq> ''OVER'' \<and> strip (upper ''sideways'') \<noteq> ''UNDER''"
    by code_simp
  from hedge_equalize_rejects [of 0 "-110" "''UNDER''" "228.5" 100 "225.5" 222 "[]"]
    hedge_equalize_rejects [of "-110" "-110" "''sideways''" "228.5" 100 "225.5" 222 "[]"] n
  show ?thesis by simp
qed

subsection \<open>The side is normalised first\<close>

text \<open>
  C10. The side is stripped and upper-cased (in either order) before it is validated:
  the call raises the side error exactly when the normalised string is neither OVER nor
  UNDER; when it is one of them and both odds are nonzero, the call succeeds, with the
  result of the call on the normalised side itself.
\<close>
theorem side_normalized_before_validation:
  "strip (upper side) = upper (strip side) \<and>
   (hedge_equalize side ml st a0 hl ah live fl =
      Inl (ValueError ''my_side must be UNDER or OVER.'') \<longleftrightarrow>
    upper (strip side) \<noteq> ''OVER'' \<and> upper (strip side) \<noteq> ''UNDER'') \<and>
   (a0 \<noteq> 0 \<and> ah \<noteq> 0 \<and> (upper (strip side) = ''OVER'' \<or> upper (strip side) = ''UNDER'') \<longrightarrow>
      (\<exists>r. hedge_equalize side ml st a0 hl ah live fl = Inr r \<and>
           hedge_equalize (upper (strip side)) ml st a0 hl ah live fl = Inr r))"
proof (intro conjI impI)
  show "strip (upper side) = upper (strip side)"
    by (rule strip_upper)
next
  show "hedge_equalize side ml st a0 hl ah live fl =
          Inl (ValueError ''my_side must be UNDER or OVER.'') \<longleftrightarrow>
        upper (strip side) \<noteq> ''OVER'' \<and> upper (strip side) \<noteq> ''UNDER''"
  proof (cases "strip (upper side) = ''UNDER'' \<or> strip (upper side) = ''OVER''")
    case valid: True
    have "hedge_equalize side ml st a0 hl ah live fl \<noteq>
            Inl (ValueError ''my_side must be UNDER or OVER.'')"
    proof (cases "a0 = 0 \<or> ah = 0")
      case True
      with valid show ?thesis
        by (auto simp: hedge_equalize_def Let_def dec_from_american_def)
    next
      case False
      then obtain d0 dh where "dec_from_american a0 = Inr d0" "dec_from_american ah = Inr dh"
        using dec_from_american_Inr by blast
      from hedge_equalize_Inr [OF valid this] show ?thesis by simp
    qed
    with valid show ?thesis by (auto simp: strip_upper)
  next
    case False
    with hedge_equalize_side_error [of side ml st a0 hl ah live fl]
    show ?thesis by (auto simp: strip_upper)
  qed
next
  assume h: "a0 \<noteq> 0 \<and> ah \<noteq> 0 \<and>
    (upper (strip side) = ''OVER'' \<or> upper (strip side) = ''UNDER'')"
  then obtain d0 dh where d: "dec_from_american a0 = Inr d0" "dec_from_american ah = Inr dh"
    using dec_from_american_Inr by blast
  from h have v: "strip (upper side) = ''UNDER'' \<or> strip (upper side) = ''OVER''"
    by (auto simp: strip_upper)
  have idem: "strip (upper (upper (strip side))) = strip (upper side)"
  proof -
    have n: "strip (upper side) = upper (strip side)"
      by (rule strip_upper)
    from v have "strip (upper (strip (upper side))) = strip (upper side)"
      by (elim disjE) (simp_all only: strip_upper_UNDER strip_upper_OVER)
    then show ?thesis by (simp only: n)
  qed
  with v have v': "strip (upper (upper (strip side))) = ''UNDER'' \<or>
      strip (upper (upper (strip side))) = ''OVER''"
    by simp
  show "\<exists>r. hedge_equalize side ml st a0 hl ah live fl = Inr r \<and>
           hedge_equalize (upper (strip side)) ml st a0 hl ah live fl = Inr r"
    using hedge_equalize_Inr [OF v d, of ml st hl live fl]
      hedge_equalize_Inr [OF v' d, of ml st hl live fl] idem
    by simp
qed

theorem side_normalized_before_validation_witness:
  "(\<exists>r. hedge_equalize '' over '' 228.5 100 (-110) 225.5 150 222 [] = Inr r \<and>
        hedge_equalize ''OVER'' 228.5 100 (-110) 225.5 150 222 [] = Inr r) \<and>
   hedge_equalize ''overs'' 228.5 100 (-110) 225.5 150 222 [] =
     Inl (ValueError ''my_side must be UNDER or OVER.'')"
proof -
  have a: "upper (strip '' over '') = ''OVER''" by code_simp
  have b: "upper (strip ''overs'') \<noteq> ''OVER'' \<and> upper (strip ''overs'') \<noteq> ''UNDER''"
    by code_simp
  from side_normalized_before_validation
         [of "'' over ''" "228.5" 100 "-110" "225.5" 150 222 "[]"]
    side_normalized_before_validation
         [of "''overs''" "228.5" 100 "-110" "225.5" 150 222 "[]"] a b
  show ?thesis by simp
qed

subsection \<open>The suggestion\<close>

text \<open>
  C6. For a valid side and nonzero odds the suggestion is decided by the first matching
  row of the table over \<open>clv\<close> (\<open>my_line - live\<close> for UNDER, \<open>live - my_line\<close> for
  OVER), the number of flags that contain HIGH\_RISK, FT\_PARADE or HIGH\_FT\_RATE, and
  the number of flags that contain BONUS, ELEVATED\_FT\_RATE, 3P\_ or OT\_ON. Containment
  is \<^const>\<open>sublist\<close>, the contiguous sublist relation of the library.
\<close>
theorem suggestion_table:
  assumes "strip (upper side) = ''UNDER'' \<or> strip (upper side) = ''OVER''"
    and "a0 \<noteq> 0" and "ah \<noteq> 0"
  shows "\<exists>r. hedge_equalize side ml st a0 hl ah live fl = Inr r \<and>
           suggestion r =
             (let clv = (if strip (upper side) = ''UNDER'' then ml - live else live - ml);
                  badCount = length (filter (\<lambda>f. sublist ''HIGH_RISK'' f \<or>
                                sublist ''FT_PARADE'' f \<or> sublist ''HIGH_FT_RATE'' f) fl);
                  warnCount = length (filter (\<lambda>f. sublist ''BONUS'' f \<or>
                                sublist ''ELEVATED_FT_RATE'' f \<or> sublist ''3P_'' f \<or>
                                sublist ''OT_ON'' f) fl)
              in if clv \<ge> 6 \<and> (badCount \<ge> 1 \<or> warnCount \<ge> 2) then ''Consider SMALL hedge''
                 else if clv \<ge> 6 then ''Hold (good CLV)''
                 else if clv \<ge> 3 \<and> badCount \<ge> 1 then ''Watch closely (whistle risk)''
                 else ''No hedge signal'')"
proof -
  from assms(2,3) obtain d0 dh where
    d: "dec_from_american a0 = Inr d0" "dec_from_american ah = Inr dh"
    using dec_from_american_Inr by blast
  have bad: "is_bad_flag = (\<lambda>f. sublist ''HIGH_RISK'' f \<or>
                sublist ''FT_PARADE'' f \<or> sublist ''HIGH_FT_RATE'' f)"
    by (rule ext) (simp add: is_bad_flag_def str_contains_sublist)
  have warn: "is_warn_flag = (\<lambda>f. sublist ''BONUS'' f \<or>
                sublist ''ELEVATED_FT_RATE'' f \<or> sublist ''3P_'' f \<or> sublist ''OT_ON'' f)"
    by (rule ext) (simp add: is_warn_flag_def str_contains_sublist)
  show ?thesis
    unfolding hedge_equalize_Inr [OF assms(1) d] bad warn
    by (simp add: suggestion_of_def Let_def)
qed


theorem suggestion_table_witness:
  "\<exists>r. hedge_equalize ''UNDER'' 228.5 100 (-110) 225.5 (-110) 222
          [''FT_PARADE'', ''3P_HOT(45.0%)''] = Inr r \<and>
       suggestion r = ''Consider SMALL hedge''"
proof -
  have v: "strip (upper ''UNDER'') = ''UNDER'' \<or> strip (upper ''UNDER'') = ''OVER''"
    by (simp add: strip_upper_UNDER)
  have nz: "(- 110 :: real) \<noteq> 0" by simp
  have b: "length (filter (\<lambda>f. sublist ''HIGH_RISK'' f \<or> sublist ''FT_PARADE'' f \<or>
               sublist ''HIGH_FT_RATE'' f) [''FT_PARADE'', ''3P_HOT(45.0%)'']) = 1"
    by code_simp
  from suggestion_table [OF v nz nz, of "228.5" 100 "225.5" 222
      "[''FT_PARADE'', ''3P_HOT(45.0%)'']", unfolded b]
  show ?thesis
    by (auto simp: strip_upper_UNDER Let_def)
qed

lemma fmt_2255: "fmt_fixed (Suc 0) (451 / 2) = ''225.5''"
  by code_simp

lemma fmt_2285: "fmt_fixed (Suc 0) (457 / 2) = ''228.5''"
  by code_simp

subsection \<open>The middle\<close>

text \<open>
  C7. For a valid side and nonzero odds: on UNDER the note reports the middle from the
  hedge line to the bet line exactly when \<open>hedge_line < my_line\<close>, on OVER the middle
  from the bet line to the hedge line exactly when \<open>hedge_line > my_line\<close>; otherwise
  it reports no classic middle. The witness is the claim's example: UNDER at 228.5
  against 225.5 gives the middle 225.5 to 228.5, against 230 no middle.
\<close>
theorem middle_detection:
  assumes "strip (upper side) = ''UNDER'' \<or> strip (upper side) = ''OVER''"
    and "a0 \<noteq> 0" and "ah \<noteq> 0"
  shows "\<exists>r. hedge_equalize side ml st a0 hl ah live fl = Inr r \<and>
           (if strip (upper side) = ''UNDER''
            then (prefix ''Middle range'' (middle_note r) \<longleftrightarrow> hl < ml) \<and>
                 (hl < ml \<longrightarrow>
                    middle_note r =
                      ''Middle range (both win): '' @ fmt_fixed 1 hl @ '' to '' @
                      fmt_fixed 1 ml @ '' (excluding pushes).'') \<and>
                 (\<not> hl < ml \<longrightarrow>
                    middle_note r =
                      ''No classic middle (hedge line not below your under line).'')
            else (prefix ''Middle range'' (middle_note r) \<longleftrightarrow> hl > ml) \<and>
                 (hl > ml \<longrightarrow>
                    middle_note r =
                      ''Middle range (both win): '' @ fmt_fixed 1 ml @ '' to '' @
                      fmt_fixed 1 hl @ '' (excluding pushes).'') \<and>
                 (\<not> hl > ml \<longrightarrow>
                    middle_note r =
                      ''No classic middle (hedge line not above your over line).''))"
proof -
  from assms(2,3) obtain d0 dh where
    d: "dec_from_american a0 = Inr d0" "dec_from_american ah = Inr dh"
    using dec_from_american_Inr by blast
  show ?thesis
    unfolding hedge_equalize_Inr [OF assms(1) d]
    by (simp add: middle_note_of_def)
qed

theorem middle_detection_witness:
  "(\<exists>r. hedge_equalize ''UNDER'' 228.5 100 (-110) 225.5 (-110) 222 [] = Inr r \<and>
        middle_note r = ''Middle range (both win): 225.5 to 228.5 (excluding pushes).'') \<and>
   (\<exists>r. hedge_equalize ''UNDER'' 228.5 100 (-110) 230 (-110) 222 [] = Inr r \<and>
        middle_note r = ''No classic middle (hedge line not below your under line).'')"
proof -
  have v: "strip (upper ''UNDER'') = ''UNDER'' \<or> strip (upper ''UNDER'') = ''OVER''"
    by (simp add: strip_upper_UNDER)
  have nz: "(- 110 :: real) \<noteq> 0" by simp
  from middle_detection [OF v nz nz, of "228.5" 100 "225.5" 222 "[]"]
  have a: "\<exists>r. hedge_equalize ''UNDER'' 228.5 100 (-110) 225.5 (-110) 222 [] = Inr r \<and>
        middle_note r = ''Middle range (both win): 225.5 to 228.5 (excluding pushes).''"
    by (auto simp: strip_upper_UNDER fmt_2255 fmt_2285)
  from middle_detection [OF v nz nz, of "228.5" 100 230 222 "[]"]
  have b: "\<exists>r. hedge_equalize ''UNDER'' 228.5 100 (-110) 230 (-110) 222 [] = Inr r \<and>
        middle_note r = ''No classic middle (hedge line not below your under line).''"
    by (auto simp: strip_upper_UNDER)
  from a b show ?thesis by blast
qed

subsection \<open>The equalised stake\<close>

text \<open>
  C9. For a valid side and nonzero odds, with \<open>hedge_stake = my_stake * dec0 / dech\<close>
  the two outcomes in which one bet wins are equal,
  \<open>my_stake * (dec0 - 1) - hedge_stake = hedge_stake * (dech - 1) - my_stake\<close>,
  and the worst-case profit, their minimum, equals either of them.
\<close>
theorem equalized_outcomes:
  assumes "strip (upper side) = ''UNDER'' \<or> strip (upper side) = ''OVER''"
    and "a0 \<noteq> 0" and "ah \<noteq> 0"
  shows "\<exists>r dec0 dech.
           dec_from_american a0 = Inr dec0 \<and> dec_from_american ah = Inr dech \<and>
           hedge_equalize side ml st a0 hl ah live fl = Inr r \<and>
           equalized_hedge_stake r = st * dec0 / dech \<and>
           st * (dec0 - 1) - equalized_hedge_stake r =
             equalized_hedge_stake r * (dech - 1) - st \<and>
           worst_case_profit r = st * (dec0 - 1) - equalized_hedge_stake r \<and>
           worst_case_profit r = equalized_hedge_stake r * (dech - 1) - st"
proof -
  from assms(2,3) obtain d0 dh where
    d: "dec_from_american a0 = Inr d0" "dec_from_american ah = Inr dh"
    and pos: "1 < dh"
    using dec_from_american_Inr by blast
  from pos have nz: "dh \<noteq> 0" by simp
  have eq: "st * (d0 - 1) - st * d0 / dh = st * d0 / dh * (dh - 1) - st"
    using nz by (simp add: field_simps)
  show ?thesis
    unfolding hedge_equalize_Inr [OF assms(1) d]
    using d eq by simp
qed

theorem equalized_outcomes_witness:
  "\<exists>r. hedge_equalize ''OVER'' 220 100 (-110) 225.5 150 222 [] = Inr r \<and>
       equalized_hedge_stake r = 840 / 11 \<and> worst_case_profit r = 160 / 11"
proof -
  have v: "strip (upper ''OVER'') = ''UNDER'' \<or> strip (upper ''OVER'') = ''OVER''"
    by (simp add: strip_upper_OVER)
  have nz: "(- 110 :: real) \<noteq> 0" "(150 :: real) \<noteq> 0" by simp_all
  from equalized_outcomes [OF v nz, of 220 100 "225.5" 222 "[]"]
  obtain r dec0 dech where
    d0: "dec_from_american (- 110) = Inr dec0" and dh: "dec_from_american 150 = Inr dech"
    and r: "hedge_equalize ''OVER'' 220 100 (- 110) 225.5 150 222 [] = Inr r"
    and st: "equalized_hedge_stake r = 100 * dec0 / dech"
    and w: "worst_case_profit r = 100 * (dec0 - 1) - equalized_hedge_stake r"
    by blast
  from d0 have e0: "dec0 = 21 / 11" by (simp add: dec_from_american_def)
  from dh have eh: "dech = 5 / 2" by (simp add: dec_from_american_def)
  have s: "equalized_hedge_stake r = 840 / 11"
    by (simp add: st e0 eh)
  have "worst_case_profit r = 160 / 11"
    by (simp add: w s e0)
  with r s show ?thesis by blast
qed

end
